theory Spec2Isabelle
  imports Main "HOL-Library.Word"
begin

unbundle bit_operations_syntax

section \<open>Data model of \<^verbatim>\<open>src/core/align.py\<close>\<close>

text \<open>
  Python objects live in a store. Arrays (numpy.ndarray) and lists are kept in two
  separate tables, an address is an index into its table, and a new object is
  appended at the end, so its address is the table's old length.
\<close>

type_synonym addr = nat

text \<open>A 2-D greyscale array: \<open>shape0\<close> rows (height), \<open>shape1\<close> columns (width).\<close>

record ndarray =
  shape0 :: nat
  shape1 :: nat
  samples :: "8 word list"

record pyheap =
  arrays :: "ndarray list"
  lists :: "addr list list"

text \<open>ORB descriptors: one row of bytes for each keypoint; \<open>des_size\<close> is numpy's \<open>.size\<close>.\<close>

type_synonym descriptor = "8 word list"
type_synonym descriptors = "descriptor list"

definition des_size :: "descriptors \<Rightarrow> nat" where
  "des_size d = length (concat d)"

text \<open>A keypoint, of which the code reads only \<open>.pt\<close>; the coordinate type is left open.\<close>

record 'c keypoint =
  pt :: "'c \<times> 'c"

record dmatch =
  queryIdx :: nat
  trainIdx :: nat
  distance :: nat

text \<open>
  An exception is its class and its message. The module declares one class,
  \<^verbatim>\<open>class AlignmentError(Exception): pass\<close>; indexing raises the builtin IndexError.
\<close>

datatype exc_class = AlignmentError | IndexError

type_synonym exn = "exc_class \<times> string"

text \<open>
  The OpenCV and numpy entry points that \<open>align_images\<close> calls are parameters:
  \<open>orb.detectAndCompute(img, None)\<close> with \<open>orb = cv2.ORB_create(1000)\<close>,
  \<open>cv2.BFMatcher(cv2.NORM_HAMMING, crossCheck=True).match\<close>, \<open>np.float32\<close>,
  \<open>cv2.estimateAffinePartial2D\<close> (its first result) and \<open>cv2.warpAffine\<close>,
  whose third argument is the pair (width, height).
\<close>

record ('c, 'm) cv2 =
  detectAndCompute :: "ndarray \<Rightarrow> 'c keypoint list \<times> descriptors option"
  bf_match :: "descriptors \<Rightarrow> descriptors \<Rightarrow> dmatch list"
  float32 :: "'c \<Rightarrow> 'c"
  estimateAffinePartial2D :: "('c \<times> 'c) list \<Rightarrow> ('c \<times> 'c) list \<Rightarrow> 'm option"
  warpAffine :: "ndarray \<Rightarrow> 'm \<Rightarrow> nat \<times> nat \<Rightarrow> ndarray"

text \<open>
  The library calls made for channel \<open>i\<close>, in order: the matcher with the number of
  matches it returned, the estimator with whether it returned a matrix, the resampler.
\<close>

datatype call = Match nat nat | Estimate nat bool | Warp nat

section \<open>Messages\<close>

definition digit_char :: "nat \<Rightarrow> char" where
  "digit_char d = ''0123456789'' ! d"

fun str :: "nat \<Rightarrow> string" where
  "str n = (if n < 10 then [digit_char n] else str (n div 10) @ [digit_char (n mod 10)])"

declare str.simps [simp del]

definition MIN_MATCHES :: nat where
  "MIN_MATCHES = 50"

definition insufficient_msg :: "nat \<Rightarrow> string" where
  "insufficient_msg n = ''Insufficient matches ('' @ str n @ ''/'' @ str MIN_MATCHES @ '')''"

definition failed_msg :: "nat \<Rightarrow> string" where
  "failed_msg i = ''Failed to estimate transformation for channel '' @ str i"

section \<open>The store\<close>

definition new_array :: "ndarray \<Rightarrow> pyheap \<Rightarrow> addr \<times> pyheap" where
  "new_array a s = (length (arrays s), s\<lparr>arrays := arrays s @ [a]\<rparr>)"

definition new_list :: "addr list \<Rightarrow> pyheap \<Rightarrow> addr \<times> pyheap" where
  "new_list xs s = (length (lists s), s\<lparr>lists := lists s @ [xs]\<rparr>)"

text \<open>\<^verbatim>\<open>aligned[i] = a\<close>; the caller has checked that \<open>i\<close> is in range.\<close>

definition set_item :: "addr \<Rightarrow> nat \<Rightarrow> addr \<Rightarrow> pyheap \<Rightarrow> pyheap" where
  "set_item l i a s = s\<lparr>lists := (lists s)[l := (lists s ! l)[i := a]]\<rparr>"

text \<open>\<^verbatim>\<open>[img.copy() for img in original_images]\<close>: the elements, one fresh array each.\<close>

fun copy_images :: "addr list \<Rightarrow> pyheap \<Rightarrow> addr list \<times> pyheap" where
  "copy_images [] s = ([], s)"
| "copy_images (a # as) s =
     (let (b, s1) = new_array (arrays s ! a) s;
          (bs, s2) = copy_images as s1
      in (b # bs, s2))"

section \<open>The alignment\<close>

text \<open>
  \<^verbatim>\<open>np.float32([kps[j].pt for j in idxs])\<close>: an index past the end of the keypoint
  tuple raises IndexError.
\<close>

definition points_of :: "('c \<Rightarrow> 'c) \<Rightarrow> 'c keypoint list \<Rightarrow> nat list \<Rightarrow> exn + ('c \<times> 'c) list" where
  "points_of f32 kps idxs =
     (if list_all (\<lambda>j. j < length kps) idxs
      then Inr (map (\<lambda>j. map_prod f32 f32 (pt (kps ! j))) idxs)
      else Inl (IndexError, ''tuple index out of range''))"

text \<open>
  The body of \<^verbatim>\<open>for i in range(1, 3)\<close>, in two parts. First lines 54 to 71: the
  guard on the descriptors, the matcher, the floor of 50 matches, the point arrays and
  the estimator. The result is the matrix, \<open>None\<close> when the guard skips the channel, or
  the exception raised. \<open>descriptors[0]\<close> is read first and \<open>descriptors[i]\<close> only
  when \<open>descriptors[0]\<close> is not \<open>None\<close>.
\<close>

definition estimate_channel ::
  "('c, 'm) cv2 \<Rightarrow> 'c keypoint list list \<Rightarrow> descriptors option list \<Rightarrow> nat \<Rightarrow>
     (exn + 'm option) \<times> call list" where
  "estimate_channel cv keypoints descriptors i =
     (if descriptors = [] then (Inl (IndexError, ''list index out of range''), [])
      else (case descriptors ! 0 of
        None \<Rightarrow> (Inr None, [])
      | Some d0 \<Rightarrow>
          if length descriptors \<le> i then (Inl (IndexError, ''list index out of range''), [])
          else (case descriptors ! i of
            None \<Rightarrow> (Inr None, [])
          | Some di \<Rightarrow>
              if \<not> (0 < des_size d0 \<and> 0 < des_size di) then (Inr None, [])
              else
                let matches = bf_match cv d0 di;
                    n = length matches
                in if n < MIN_MATCHES
                   then (Inl (AlignmentError, insufficient_msg n), [Match i n])
                   else (case points_of (float32 cv) (keypoints ! 0) (map queryIdx matches) of
                     Inl e \<Rightarrow> (Inl e, [Match i n])
                   | Inr src_pts \<Rightarrow>
                       (case points_of (float32 cv) (keypoints ! i) (map trainIdx matches) of
                         Inl e \<Rightarrow> (Inl e, [Match i n])
                       | Inr dst_pts \<Rightarrow>
                           (case estimateAffinePartial2D cv dst_pts src_pts of
                             None \<Rightarrow> (Inl (AlignmentError, failed_msg i),
                                       [Match i n, Estimate i False])
                           | Some M \<Rightarrow> (Inr (Some M), [Match i n, Estimate i True])))))))"

text \<open>
  Then lines 74 to 77: the resampled channel, of the reference's width and height, is a
  new array and is stored in \<open>aligned[i]\<close>.
\<close>

definition align_channel ::
  "('c, 'm) cv2 \<Rightarrow> addr \<Rightarrow> addr \<Rightarrow> 'c keypoint list list \<Rightarrow> descriptors option list \<Rightarrow> nat \<Rightarrow>
     pyheap \<Rightarrow> (exn + unit) \<times> pyheap \<times> call list" where
  "align_channel cv original_images aligned keypoints descriptors i s =
     (case estimate_channel cv keypoints descriptors i of
        (Inl e, t) \<Rightarrow> (Inl e, s, t)
      | (Inr None, t) \<Rightarrow> (Inr (), s, t)
      | (Inr (Some M), t) \<Rightarrow>
          let img = arrays s ! (lists s ! original_images ! i);
              ref = arrays s ! (lists s ! original_images ! 0);
              (a, s') = new_array (warpAffine cv img M (shape1 ref, shape0 ref)) s
          in (Inr (), set_item aligned i a s', t @ [Warp i]))"

text \<open>The loop: an exception in one iteration ends it.\<close>

fun align_loop ::
  "('c, 'm) cv2 \<Rightarrow> addr \<Rightarrow> addr \<Rightarrow> 'c keypoint list list \<Rightarrow> descriptors option list \<Rightarrow> nat list \<Rightarrow>
     pyheap \<Rightarrow> (exn + unit) \<times> pyheap \<times> call list" where
  "align_loop cv original_images aligned keypoints descriptors [] s = (Inr (), s, [])"
| "align_loop cv original_images aligned keypoints descriptors (i # is) s =
     (case align_channel cv original_images aligned keypoints descriptors i s of
        (Inl e, s', t) \<Rightarrow> (Inl e, s', t)
      | (Inr _, s', t) \<Rightarrow>
          (case align_loop cv original_images aligned keypoints descriptors is s' of
             (r, s'', t') \<Rightarrow> (r, s'', t @ t')))"

text \<open>
  \<open>align_images\<close>: the argument is the address of the list of the three images, the
  result is the address of the new list \<open>aligned\<close> or the exception raised, with the
  store the call leaves behind and the library calls it made for the channels.
\<close>

definition align_images ::
  "('c, 'm) cv2 \<Rightarrow> addr \<Rightarrow> pyheap \<Rightarrow> (exn + addr) \<times> pyheap \<times> call list" where
  "align_images cv original_images s0 =
     (let (copies, s1) = copy_images (lists s0 ! original_images) s0;
          (aligned, s2) = new_list copies s1;
          found = map (\<lambda>a. detectAndCompute cv (arrays s2 ! a)) (lists s2 ! original_images);
          keypoints = map fst found;
          descriptors = map snd found
      in case align_loop cv original_images aligned keypoints descriptors [1, 2] s2 of
           (Inl e, s3, t) \<Rightarrow> (Inl e, s3, t)
         | (Inr _, s3, t) \<Rightarrow> (Inr aligned, s3, t))"

section \<open>Notions used in the statements\<close>

text \<open>The images a list holds, and an input list whose elements are arrays of the store.\<close>

definition images_at :: "pyheap \<Rightarrow> addr \<Rightarrow> ndarray list" where
  "images_at s l = map ((!) (arrays s)) (lists s ! l)"

definition valid_input :: "pyheap \<Rightarrow> addr \<Rightarrow> bool" where
  "valid_input s l \<longleftrightarrow> l < length (lists s) \<and> list_all (\<lambda>a. a < length (arrays s)) (lists s ! l)"

text \<open>The guard of lines 54 and 55 on two results of the detector.\<close>

definition described :: "descriptors option \<Rightarrow> descriptors option \<Rightarrow> bool" where
  "described r t = (case (r, t) of (Some d0, Some di) \<Rightarrow> 0 < des_size d0 \<and> 0 < des_size di | _ \<Rightarrow> False)"

fun channel_of :: "call \<Rightarrow> nat" where
  "channel_of (Match i n) = i"
| "channel_of (Estimate i ok) = i"
| "channel_of (Warp i) = i"

text \<open>What the detector returns for a list of images (lines 43 to 50).\<close>

definition keypoints_of :: "('c, 'm) cv2 \<Rightarrow> ndarray list \<Rightarrow> 'c keypoint list list" where
  "keypoints_of cv imgs = map (\<lambda>X. fst (detectAndCompute cv X)) imgs"

definition descriptors_of :: "('c, 'm) cv2 \<Rightarrow> ndarray list \<Rightarrow> descriptors option list" where
  "descriptors_of cv imgs = map (\<lambda>X. snd (detectAndCompute cv X)) imgs"

text \<open>The class of the exception a result carries.\<close>

definition raised_class :: "exn + 'a \<Rightarrow> exc_class option" where
  "raised_class r = (case r of Inl (c, msg) \<Rightarrow> Some c | Inr _ \<Rightarrow> None)"

section \<open>The matcher\<close>

text \<open>
  Modelled from the spec: the matcher. \<open>cv2.BFMatcher(cv2.NORM_HAMMING,
  crossCheck=True).match\<close> is OpenCV's code and is not in the repository; line 58 fixes
  only its two arguments. From section 4.2 of the specification: nearest-descriptor
  matching under the Hamming distance (the number of bits in which two descriptors
  differ), accepted only when mutual. Of several equally near descriptors the first
  counts as the nearest.
\<close>

definition hamming :: "descriptor \<Rightarrow> descriptor \<Rightarrow> nat" where
  "hamming a b = sum_list (map (\<lambda>(x, y). length (filter (bit (x XOR y)) [0..<8])) (zip a b))"

text \<open>
  Modelled from the spec: the index of the descriptor of \<open>ds\<close> nearest to \<open>q\<close>, the
  first of them when several are equally near.
\<close>

fun nearest :: "descriptor \<Rightarrow> descriptors \<Rightarrow> nat option" where
  "nearest q [] = None"
| "nearest q (d # ds) =
     (case nearest q ds of
        None \<Rightarrow> Some 0
      | Some j \<Rightarrow> if hamming q d \<le> hamming q (ds ! j) then Some 0 else Some (Suc j))"

text \<open>
  Modelled from the spec: cross-checked matching, the library's matcher being absent.
  For each query descriptor its nearest train descriptor, kept when the query
  descriptor is in turn the nearest to that train descriptor. No distance is compared
  with a threshold.
\<close>

definition cross_check_match :: "descriptors \<Rightarrow> descriptors \<Rightarrow> dmatch list" where
  "cross_check_match query train =
     concat (map (\<lambda>i. case nearest (query ! i) train of
                         None \<Rightarrow> []
                       | Some j \<Rightarrow>
                           if nearest (train ! j) query = Some i
                           then [\<lparr>queryIdx = i, trainIdx = j,
                                  distance = hamming (query ! i) (train ! j)\<rparr>]
                           else [])
                 [0..<length query])"

text \<open>
  Modelled from the spec: the words "best match" of section 4.2.
  "\<open>ds ! j\<close> is the best match of \<open>q\<close> in \<open>ds\<close>": no descriptor of \<open>ds\<close> is nearer
  to \<open>q\<close>, and every earlier one is farther.
\<close>

definition best_match :: "descriptor \<Rightarrow> descriptors \<Rightarrow> nat \<Rightarrow> bool" where
  "best_match q ds j \<longleftrightarrow>
     j < length ds
     \<and> (\<forall>k\<in>{0..<length ds}. hamming q (ds ! j) \<le> hamming q (ds ! k))
     \<and> (\<forall>k\<in>{0..<j}. hamming q (ds ! j) < hamming q (ds ! k))"

section \<open>Test instances\<close>

text \<open>
  Three small images, the green one blank and of another size, and a stand-in for the
  library: a blank image has no features, any other has \<open>k\<close> keypoints; descriptor
  \<open>j\<close> of one image matches descriptor \<open>j\<close> of the other; the estimator returns a
  matrix when \<open>ok\<close> holds; the resampler returns a black image of the size asked for.
\<close>

definition img_R :: ndarray where
  "img_R = \<lparr>shape0 = 2, shape1 = 3, samples = [10, 20, 30, 40, 50, 60]\<rparr>"

definition img_G :: ndarray where
  "img_G = \<lparr>shape0 = 1, shape1 = 2, samples = [0, 0]\<rparr>"

definition img_B :: ndarray where
  "img_B = \<lparr>shape0 = 2, shape1 = 3, samples = [60, 50, 40, 30, 20, 10]\<rparr>"

definition demo_cv :: "nat \<Rightarrow> bool \<Rightarrow> (int, unit) cv2" where
  "demo_cv k ok =
     \<lparr>detectAndCompute = (\<lambda>X. if list_all (\<lambda>p. p = 0) (samples X) then ([], None)
          else (map (\<lambda>j. \<lparr>pt = (int j, int j)\<rparr>) [0..<k], Some (map (\<lambda>j. [of_nat j, 1]) [0..<k]))),
      bf_match = (\<lambda>d0 d1. map (\<lambda>j. \<lparr>queryIdx = j, trainIdx = j, distance = 0\<rparr>)
          [0..<min (length d0) (length d1)]),
      float32 = (\<lambda>c. c),
      estimateAffinePartial2D = (\<lambda>dst src. if ok then Some () else None),
      warpAffine = (\<lambda>X M (w, h). \<lparr>shape0 = h, shape1 = w, samples = replicate (w * h) 0\<rparr>)\<rparr>"

definition store_G_blank :: pyheap where
  "store_G_blank = \<lparr>arrays = [img_R, img_G, img_B], lists = [[0, 1, 2]]\<rparr>"

definition store_textured :: pyheap where
  "store_textured = \<lparr>arrays = [img_R, img_B, img_G, img_B], lists = [[2], [0, 1, 3]]\<rparr>"

text \<open>The same three images again, the second and third being one array.\<close>

definition store_aliased :: pyheap where
  "store_aliased = \<lparr>arrays = [img_B, img_R], lists = [[1, 0, 0]]\<rparr>"

definition img_black :: ndarray where
  "img_black = \<lparr>shape0 = 2, shape1 = 3, samples = [0, 0, 0, 0, 0, 0]\<rparr>"

section \<open>The store after the copies, and the outcomes of one channel\<close>

lemma copy_images_eq:
  "\<forall>a\<in>set as. a < length (arrays s) \<Longrightarrow>
   copy_images as s =
     ([length (arrays s) ..< length (arrays s) + length as],
      s\<lparr>arrays := arrays s @ map ((!) (arrays s)) as\<rparr>)"
proof (induction as arbitrary: s)
  case Nil
  then show ?case by simp
next
  case (Cons a as)
  let ?s1 = "s\<lparr>arrays := arrays s @ [arrays s ! a]\<rparr>"
  have valid: "\<forall>b\<in>set as. b < length (arrays ?s1)"
    using Cons.prems by auto
  have same: "map ((!) (arrays ?s1)) as = map ((!) (arrays s)) as"
    using Cons.prems by (auto simp: nth_append)
  show ?case
    using Cons.IH [OF valid] same
    by (simp add: new_array_def upt_conv_Cons del: upt_Suc)
qed

lemma estimate_channel_cases:
  assumes "estimate_channel cv kps des i = (r, t)"
  shows "(t = [] \<and> (r = Inr None \<or> r = Inl (IndexError, ''list index out of range'')))
    \<or> (\<exists>n. t = [Match i n] \<and> n < MIN_MATCHES \<and> r = Inl (AlignmentError, insufficient_msg n))
    \<or> (\<exists>n. t = [Match i n] \<and> MIN_MATCHES \<le> n \<and> r = Inl (IndexError, ''tuple index out of range''))
    \<or> (\<exists>n. t = [Match i n, Estimate i False] \<and> MIN_MATCHES \<le> n
          \<and> r = Inl (AlignmentError, failed_msg i))
    \<or> (\<exists>n M. t = [Match i n, Estimate i True] \<and> MIN_MATCHES \<le> n \<and> r = Inr (Some M))"
  using assms
  by (auto simp: estimate_channel_def Let_def points_of_def
      split: option.splits sum.splits if_splits)

text \<open>A call on a list of three arrays, written out: nine ways through the two channels.\<close>

lemma align_images_triple:
  assumes l: "l < length (lists s)" and ll: "lists s ! l = [a0, a1, a2]"
    and a: "a0 < length (arrays s)" "a1 < length (arrays s)" "a2 < length (arrays s)"
  shows "align_images cv l s =
    (let X0 = arrays s ! a0; X1 = arrays s ! a1; X2 = arrays s ! a2;
         found = map (detectAndCompute cv) [X0, X1, X2];
         kps = map fst found; des = map snd found;
         n = length (arrays s); m = length (lists s);
         dsize = (shape1 X0, shape0 X0)
     in case estimate_channel cv kps des 1 of
          (Inl e, t1) \<Rightarrow>
            (Inl e, s\<lparr>arrays := arrays s @ [X0, X1, X2],
                      lists := lists s @ [[n, n + 1, n + 2]]\<rparr>, t1)
        | (Inr None, t1) \<Rightarrow>
            (case estimate_channel cv kps des 2 of
               (Inl e, t2) \<Rightarrow>
                 (Inl e, s\<lparr>arrays := arrays s @ [X0, X1, X2],
                           lists := lists s @ [[n, n + 1, n + 2]]\<rparr>, t1 @ t2)
             | (Inr None, t2) \<Rightarrow>
                 (Inr m, s\<lparr>arrays := arrays s @ [X0, X1, X2],
                           lists := lists s @ [[n, n + 1, n + 2]]\<rparr>, t1 @ t2)
             | (Inr (Some M2), t2) \<Rightarrow>
                 (Inr m, s\<lparr>arrays := arrays s @ [X0, X1, X2, warpAffine cv X2 M2 dsize],
                           lists := lists s @ [[n, n + 1, n + 3]]\<rparr>, t1 @ t2 @ [Warp 2]))
        | (Inr (Some M1), t1) \<Rightarrow>
            (case estimate_channel cv kps des 2 of
               (Inl e, t2) \<Rightarrow>
                 (Inl e, s\<lparr>arrays := arrays s @ [X0, X1, X2, warpAffine cv X1 M1 dsize],
                           lists := lists s @ [[n, n + 3, n + 2]]\<rparr>, t1 @ [Warp 1] @ t2)
             | (Inr None, t2) \<Rightarrow>
                 (Inr m, s\<lparr>arrays := arrays s @ [X0, X1, X2, warpAffine cv X1 M1 dsize],
                           lists := lists s @ [[n, n + 3, n + 2]]\<rparr>, t1 @ [Warp 1] @ t2)
             | (Inr (Some M2), t2) \<Rightarrow>
                 (Inr m, s\<lparr>arrays := arrays s @ [X0, X1, X2, warpAffine cv X1 M1 dsize,
                                                   warpAffine cv X2 M2 dsize],
                           lists := lists s @ [[n, n + 3, n + 4]]\<rparr>,
                  t1 @ [Warp 1] @ t2 @ [Warp 2])))"
proof -
  have v: "\<forall>a\<in>set [a0, a1, a2]. a < length (arrays s)" using a by simp
  show ?thesis
    unfolding align_images_def ll copy_images_eq [OF v]
    using l a
    by (simp add: new_list_def new_array_def set_item_def align_channel_def Let_def nth_append ll
          upt_conv_Cons
          split: prod.splits sum.splits option.splits del: upt_Suc)
qed

lemma triple_addrs:
  assumes "valid_input s l" "images_at s l = [R, G, B]"
  obtains a0 a1 a2 where "l < length (lists s)" "lists s ! l = [a0, a1, a2]"
    "a0 < length (arrays s)" "a1 < length (arrays s)" "a2 < length (arrays s)"
    "arrays s ! a0 = R" "arrays s ! a1 = G" "arrays s ! a2 = B"
  using assms
  by (auto simp: valid_input_def images_at_def map_eq_Cons_conv)

section \<open>The two channels of a run\<close>

lemma estimate_channel_Match:
  assumes "estimate_channel cv kps des i = (r, t)" and "Match j n \<in> set t"
  shows "j = i \<and> (\<exists>d0 di. des ! 0 = Some d0 \<and> des ! i = Some di \<and> 0 < des_size d0 \<and> 0 < des_size di
           \<and> n = length (bf_match cv d0 di))"
  using assms
  by (auto simp: estimate_channel_def Let_def points_of_def
      split: option.splits sum.splits if_splits)

lemma estimate_channel_skip:
  assumes "length des = 3" "i < 3"
  shows "(fst (estimate_channel cv kps des i) = Inr None) = (\<not> described (des ! 0) (des ! i))"
   and "\<not> described (des ! 0) (des ! i) \<Longrightarrow> estimate_channel cv kps des i = (Inr None, [])"
  using assms
  by (auto simp: estimate_channel_def described_def Let_def points_of_def
      split: option.splits sum.splits if_splits)

lemma triple_run:
  assumes v: "valid_input s l" and im: "images_at s l = [R, G, B]"
    and run: "align_images cv l s = (r, s', t)"
  obtains r1 t1 r2 t2 where
    "estimate_channel cv (keypoints_of cv [R, G, B]) (descriptors_of cv [R, G, B]) 1 = (r1, t1)"
    "estimate_channel cv (keypoints_of cv [R, G, B]) (descriptors_of cv [R, G, B]) 2 = (r2, t2)"
    "case r1 of Inl e \<Rightarrow> r = Inl e \<and> t = t1
     | Inr o1 \<Rightarrow> (case r2 of Inl e \<Rightarrow> r = Inl e \<and> t = t1 @ (if o1 = None then [] else [Warp 1]) @ t2
         | Inr o2 \<Rightarrow> r = Inr (length (lists s)) \<and>
             t = t1 @ (if o1 = None then [] else [Warp 1]) @ t2 @ (if o2 = None then [] else [Warp 2])
             \<and> images_at s' (length (lists s)) =
                 [R, case o1 of None \<Rightarrow> G | Some M \<Rightarrow> warpAffine cv G M (shape1 R, shape0 R),
                     case o2 of None \<Rightarrow> B | Some M \<Rightarrow> warpAffine cv B M (shape1 R, shape0 R)])"
proof -
  from v im obtain a0 a1 a2 where *: "l < length (lists s)" "lists s ! l = [a0, a1, a2]"
    "a0 < length (arrays s)" "a1 < length (arrays s)" "a2 < length (arrays s)"
    "arrays s ! a0 = R" "arrays s ! a1 = G" "arrays s ! a2 = B"
    by (rule triple_addrs)
  obtain r1 t1 where e1: "estimate_channel cv (keypoints_of cv [R, G, B]) (descriptors_of cv [R, G, B]) 1 = (r1, t1)"
    by (cases "estimate_channel cv (keypoints_of cv [R, G, B]) (descriptors_of cv [R, G, B]) 1")
  obtain r2 t2 where e2: "estimate_channel cv (keypoints_of cv [R, G, B]) (descriptors_of cv [R, G, B]) 2 = (r2, t2)"
    by (cases "estimate_channel cv (keypoints_of cv [R, G, B]) (descriptors_of cv [R, G, B]) 2")
  have "case r1 of Inl e \<Rightarrow> r = Inl e \<and> t = t1
     | Inr o1 \<Rightarrow> (case r2 of Inl e \<Rightarrow> r = Inl e \<and> t = t1 @ (if o1 = None then [] else [Warp 1]) @ t2
         | Inr o2 \<Rightarrow> r = Inr (length (lists s)) \<and>
             t = t1 @ (if o1 = None then [] else [Warp 1]) @ t2 @ (if o2 = None then [] else [Warp 2])
             \<and> images_at s' (length (lists s)) =
                 [R, case o1 of None \<Rightarrow> G | Some M \<Rightarrow> warpAffine cv G M (shape1 R, shape0 R),
                     case o2 of None \<Rightarrow> B | Some M \<Rightarrow> warpAffine cv B M (shape1 R, shape0 R)])"
    using run e1 e2 *(6-8)
    unfolding align_images_triple [OF *(1-5), of cv]
    by (auto simp: Let_def images_at_def nth_append keypoints_of_def descriptors_of_def
        split: prod.splits sum.splits option.splits)
  with e1 e2 show ?thesis by (rule that)
qed

lemma str_small: "str 50 = ''50''" "str 1 = ''1''" "str 2 = ''2''"
  by (simp_all add: str.simps digit_char_def)

lemma estimate_channel_channel:
  assumes "estimate_channel cv kps des i = (r, t)" and "c \<in> set t"
  shows "channel_of c = i"
  using estimate_channel_cases [OF assms(1)] assms(2) by auto

lemma estimate_channel_few:
  assumes "estimate_channel cv kps des i = (r, t)" and "Match j n \<in> set t" and "n < MIN_MATCHES"
  shows "r = Inl (AlignmentError, insufficient_msg n) \<and> t = [Match i n]"
  using estimate_channel_cases [OF assms(1)] assms(2,3) by auto

lemma estimate_channel_None:
  assumes "estimate_channel cv kps des i = (r, t)" and "Estimate j False \<in> set t"
  shows "r = Inl (AlignmentError, failed_msg i) \<and> (\<exists>n. MIN_MATCHES \<le> n \<and> t = [Match i n, Estimate i False])"
  using estimate_channel_cases [OF assms(1)] assms(2) by auto

lemma estimate_channel_Inr:
  assumes "estimate_channel cv kps des i = (Inr x, t)"
  shows "t = [] \<and> x = None \<or> (\<exists>n M. MIN_MATCHES \<le> n \<and> t = [Match i n, Estimate i True] \<and> x = Some M)"
  using estimate_channel_cases [OF assms(1)] by auto

lemma estimate_channel_Estimate:
  assumes "estimate_channel cv kps des i = (r, t)" and "Estimate j ok \<in> set t"
  shows "j = i \<and> (\<exists>d0 di src dst. des ! 0 = Some d0 \<and> des ! i = Some di
           \<and> points_of (float32 cv) (kps ! 0) (map queryIdx (bf_match cv d0 di)) = Inr src
           \<and> points_of (float32 cv) (kps ! i) (map trainIdx (bf_match cv d0 di)) = Inr dst
           \<and> (ok \<longleftrightarrow> estimateAffinePartial2D cv dst src \<noteq> None))"
proof -
  from assms(2) have ne: "t \<noteq> []" by auto
  show ?thesis
  proof (cases "des = []")
    case True
    with assms ne show ?thesis by (simp add: estimate_channel_def)
  next
    case False
    note d = this
    show ?thesis
    proof (cases "des ! 0")
      case None
      with assms d ne show ?thesis by (simp add: estimate_channel_def)
    next
      case (Some d0)
      note d0 = this
      show ?thesis
      proof (cases "length des \<le> i")
        case True
        with assms d d0 ne show ?thesis by (simp add: estimate_channel_def)
      next
        case False
        note li = this
        show ?thesis
        proof (cases "des ! i")
          case None
          with assms d d0 li ne show ?thesis by (simp add: estimate_channel_def)
        next
          case (Some di)
          note di = this
          let ?ms = "bf_match cv d0 di"
          show ?thesis
          proof (cases "points_of (float32 cv) (kps ! 0) (map queryIdx ?ms)")
            case (Inl e)
            with assms d d0 li di show ?thesis
              by (auto simp: estimate_channel_def Let_def split: if_splits)
          next
            case (Inr src)
            note src = this
            show ?thesis
            proof (cases "points_of (float32 cv) (kps ! i) (map trainIdx ?ms)")
              case (Inl e)
              with assms d d0 li di src show ?thesis
                by (auto simp: estimate_channel_def Let_def split: if_splits)
            next
              case (Inr dst)
              with assms d d0 li di src show ?thesis
                by (auto simp: estimate_channel_def Let_def split: if_splits option.splits)
            qed
          qed
        qed
      qed
    qed
  qed
qed

lemma triple_run_cases [consumes 3, case_names fail1 fail2 ok]:
  assumes v: "valid_input s l" and im: "images_at s l = [R, G, B]"
    and run: "align_images cv l s = (r, s', t)"
  obtains
    (fail1) e t1 where
      "estimate_channel cv (keypoints_of cv [R, G, B]) (descriptors_of cv [R, G, B]) 1 = (Inl e, t1)"
      "r = Inl e" "t = t1"
  | (fail2) o1 t1 e t2 where
      "estimate_channel cv (keypoints_of cv [R, G, B]) (descriptors_of cv [R, G, B]) 1 = (Inr o1, t1)"
      "estimate_channel cv (keypoints_of cv [R, G, B]) (descriptors_of cv [R, G, B]) 2 = (Inl e, t2)"
      "r = Inl e" "t = t1 @ (if o1 = None then [] else [Warp 1]) @ t2"
  | (ok) o1 t1 o2 t2 where
      "estimate_channel cv (keypoints_of cv [R, G, B]) (descriptors_of cv [R, G, B]) 1 = (Inr o1, t1)"
      "estimate_channel cv (keypoints_of cv [R, G, B]) (descriptors_of cv [R, G, B]) 2 = (Inr o2, t2)"
      "r = Inr (length (lists s))"
      "t = t1 @ (if o1 = None then [] else [Warp 1]) @ t2 @ (if o2 = None then [] else [Warp 2])"
      "images_at s' (length (lists s)) =
         [R, case o1 of None \<Rightarrow> G | Some M \<Rightarrow> warpAffine cv G M (shape1 R, shape0 R),
             case o2 of None \<Rightarrow> B | Some M \<Rightarrow> warpAffine cv B M (shape1 R, shape0 R)]"
proof -
  from v im run obtain r1 t1 r2 t2 where
    e1: "estimate_channel cv (keypoints_of cv [R, G, B]) (descriptors_of cv [R, G, B]) 1 = (r1, t1)" and
    e2: "estimate_channel cv (keypoints_of cv [R, G, B]) (descriptors_of cv [R, G, B]) 2 = (r2, t2)" and
    rt: "case r1 of Inl e \<Rightarrow> r = Inl e \<and> t = t1
     | Inr o1 \<Rightarrow> (case r2 of Inl e \<Rightarrow> r = Inl e \<and> t = t1 @ (if o1 = None then [] else [Warp 1]) @ t2
         | Inr o2 \<Rightarrow> r = Inr (length (lists s)) \<and>
             t = t1 @ (if o1 = None then [] else [Warp 1]) @ t2 @ (if o2 = None then [] else [Warp 2])
             \<and> images_at s' (length (lists s)) =
                 [R, case o1 of None \<Rightarrow> G | Some M \<Rightarrow> warpAffine cv G M (shape1 R, shape0 R),
                     case o2 of None \<Rightarrow> B | Some M \<Rightarrow> warpAffine cv B M (shape1 R, shape0 R)])"
    by (rule triple_run)
  show thesis
  proof (cases r1)
    case (Inl e)
    with e1 rt show thesis by (intro fail1 [of e t1]) simp_all
  next
    case (Inr o1)
    note r1 = this
    show thesis
    proof (cases r2)
      case (Inl e)
      with e1 e2 rt r1 show thesis by (intro fail2 [of o1 t1 e t2]) simp_all
    next
      case (Inr o2)
      with e1 e2 rt r1 show thesis by (intro ok [of o1 t1 o2 t2]) simp_all
    qed
  qed
qed


section \<open>What a run returns, raises and leaves in the store\<close>

lemma estimate_channel_Inl:
  assumes "estimate_channel cv kps des i = (Inl e, t)" and "length des = 3" and "i < 3"
  shows "t \<noteq> [] \<and> (fst e = AlignmentError \<longrightarrow>
     (\<exists>n. n < MIN_MATCHES \<and> Match i n \<in> set t \<and> snd e = insufficient_msg n)
     \<or> (Estimate i False \<in> set t \<and> snd e = failed_msg i))"
  using assms
  by (auto simp: estimate_channel_def Let_def points_of_def
      split: option.splits sum.splits if_splits)

lemma descriptors_of_length: "length (descriptors_of cv [R, G, B]) = 3"
  by (simp add: descriptors_of_def)

lemma error_messages_channel:
  assumes e: "estimate_channel cv kps des i = (Inl (AlignmentError, msg), ti)"
    and len: "length des = 3" and i: "i = 1 \<or> i = 2" and sub: "set ti \<subseteq> set t"
  shows "(\<exists>i n. (i = 1 \<or> i = 2) \<and> n < 50 \<and> Match i n \<in> set t
            \<and> msg = ''Insufficient matches ('' @ str n @ ''/50)'')
       \<or> (\<exists>i. (i = 1 \<or> i = 2) \<and> Estimate i False \<in> set t
            \<and> msg = ''Failed to estimate transformation for channel '' @ str i)"
proof -
  have i3: "i < 3" using i by auto
  from estimate_channel_Inl [OF e len i3]
  consider n where "n < MIN_MATCHES" "Match i n \<in> set ti" "msg = insufficient_msg n"
    | "Estimate i False \<in> set ti" "msg = failed_msg i"
    by auto
  then show ?thesis
  proof cases
    case 1
    have "(i = 1 \<or> i = 2) \<and> n < 50 \<and> Match i n \<in> set t
            \<and> msg = ''Insufficient matches ('' @ str n @ ''/50)''"
      using 1 i sub by (auto simp: insufficient_msg_def MIN_MATCHES_def str_small)
    then show ?thesis by blast
  next
    case 2
    have "(i = 1 \<or> i = 2) \<and> Estimate i False \<in> set t
            \<and> msg = ''Failed to estimate transformation for channel '' @ str i"
      using 2 i sub by (auto simp: failed_msg_def)
    then show ?thesis by blast
  qed
qed

section \<open>The nearest descriptor\<close>

lemma nearest_None: "nearest q ds = None \<longleftrightarrow> ds = []"
  by (cases ds) (auto split: option.splits)

lemma best_match_unique: "best_match q ds j \<Longrightarrow> best_match q ds k \<Longrightarrow> j = k"
  unfolding best_match_def
  by (metis atLeastLessThan_iff le0 linorder_neqE_nat not_less)

lemma nearest_best: "nearest q ds = Some j \<Longrightarrow> best_match q ds j"
proof (induction ds arbitrary: j)
  case Nil
  then show ?case by simp
next
  case (Cons d ds)
  show ?case
  proof (cases "nearest q ds")
    case None
    then have "ds = []" by (simp add: nearest_None)
    with Cons.prems show ?thesis by (auto simp: best_match_def)
  next
    case (Some j')
    from Cons.IH [OF Some] have b: "best_match q ds j'" .
    show ?thesis
    proof (cases "hamming q d \<le> hamming q (ds ! j')")
      case True
      with Some Cons.prems have j: "j = 0" by simp
      have "\<forall>k\<in>{0..<length (d # ds)}. hamming q d \<le> hamming q ((d # ds) ! k)"
      proof
        fix k assume k: "k \<in> {0..<length (d # ds)}"
        show "hamming q d \<le> hamming q ((d # ds) ! k)"
        proof (cases k)
          case 0
          then show ?thesis by simp
        next
          case (Suc k')
          with k have "k' \<in> {0..<length ds}" by simp
          with b have "hamming q (ds ! j') \<le> hamming q (ds ! k')" by (simp add: best_match_def)
          with True Suc show ?thesis by simp
        qed
      qed
      with j show ?thesis by (simp add: best_match_def)
    next
      case False
      with Some Cons.prems have j: "j = Suc j'" by simp
      have "\<forall>k\<in>{0..<length (d # ds)}. hamming q (ds ! j') \<le> hamming q ((d # ds) ! k)"
      proof
        fix k assume k: "k \<in> {0..<length (d # ds)}"
        show "hamming q (ds ! j') \<le> hamming q ((d # ds) ! k)"
        proof (cases k)
          case 0
          with False show ?thesis by simp
        next
          case (Suc k')
          with k have "k' \<in> {0..<length ds}" by simp
          with b Suc show ?thesis by (simp add: best_match_def)
        qed
      qed
      moreover have "\<forall>k\<in>{0..<Suc j'}. hamming q (ds ! j') < hamming q ((d # ds) ! k)"
      proof
        fix k assume k: "k \<in> {0..<Suc j'}"
        show "hamming q (ds ! j') < hamming q ((d # ds) ! k)"
        proof (cases k)
          case 0
          with False show ?thesis by simp
        next
          case (Suc k')
          with k have "k' \<in> {0..<j'}" by simp
          with b Suc show ?thesis by (simp add: best_match_def)
        qed
      qed
      moreover have "Suc j' < length (d # ds)" using b by (simp add: best_match_def)
      ultimately show ?thesis using j by (simp add: best_match_def)
    qed
  qed
qed

lemma nearest_iff: "nearest q ds = Some j \<longleftrightarrow> best_match q ds j"
proof
  assume "nearest q ds = Some j"
  then show "best_match q ds j" by (rule nearest_best)
next
  assume b: "best_match q ds j"
  then have "ds \<noteq> []" by (auto simp: best_match_def)
  then obtain j' where n: "nearest q ds = Some j'"
    using nearest_None [of q ds] by (cases "nearest q ds") auto
  from nearest_best [OF n] b have "j' = j" by (rule best_match_unique)
  with n show "nearest q ds = Some j" by simp
qed

section \<open>Runs of the test instances\<close>

lemma run_G_blank:
  "align_images (demo_cv 50 True) 0 store_G_blank =
     (Inr 1,
      \<lparr>arrays = [img_R, img_G, img_B, img_R, img_G, img_B,
                 \<lparr>shape0 = 2, shape1 = 3, samples = [0, 0, 0, 0, 0, 0]\<rparr>],
       lists = [[0, 1, 2], [3, 4, 6]]\<rparr>,
      [Match 2 50, Estimate 2 True, Warp 2])"
  by code_simp

lemma valid_G_blank: "valid_input store_G_blank 0"
  by code_simp

lemma images_G_blank: "images_at store_G_blank 0 = [img_R, img_G, img_B]"
  by code_simp

lemma valid_textured: "valid_input store_textured 1"
  by code_simp

lemma images_textured: "images_at store_textured 1 = [img_R, img_B, img_B]"
  by code_simp

lemma run_few:
  "align_images (demo_cv 10 True) 1 store_textured =
     (Inl (AlignmentError, ''Insufficient matches (10/50)''),
      \<lparr>arrays = [img_R, img_B, img_G, img_B, img_R, img_B, img_B],
       lists = [[2], [0, 1, 3], [4, 5, 6]]\<rparr>,
      [Match 1 10])"
  by code_simp

lemma run_no_fit:
  "align_images (demo_cv 60 False) 1 store_textured =
     (Inl (AlignmentError, ''Failed to estimate transformation for channel 1''),
      \<lparr>arrays = [img_R, img_B, img_G, img_B, img_R, img_B, img_B],
       lists = [[2], [0, 1, 3], [4, 5, 6]]\<rparr>,
      [Match 1 60, Estimate 1 False])"
  by code_simp

lemma described_G_blank:
  "\<not> described (descriptors_of (demo_cv 50 True) [img_R, img_G, img_B] ! 0)
       (descriptors_of (demo_cv 50 True) [img_R, img_G, img_B] ! 1)"
  "described (descriptors_of (demo_cv 50 True) [img_R, img_G, img_B] ! 0)
       (descriptors_of (demo_cv 50 True) [img_R, img_G, img_B] ! 2)"
  by code_simp+

lemma images_aliased: "valid_input store_aliased 0" "images_at store_aliased 0 = [img_R, img_B, img_B]"
  by code_simp+

lemma run_textured:
  "align_images (demo_cv 50 True) 1 store_textured =
     (Inr 2,
      \<lparr>arrays = [img_R, img_B, img_G, img_B, img_R, img_B, img_B, img_black, img_black],
       lists = [[2], [0, 1, 3], [4, 7, 8]]\<rparr>,
      [Match 1 50, Estimate 1 True, Warp 1, Match 2 50, Estimate 2 True, Warp 2])"
  by code_simp

lemma run_aliased:
  "align_images (demo_cv 50 True) 0 store_aliased =
     (Inr 1,
      \<lparr>arrays = [img_B, img_R, img_R, img_B, img_B, img_black, img_black],
       lists = [[1, 0, 0], [2, 5, 6]]\<rparr>,
      [Match 1 50, Estimate 1 True, Warp 1, Match 2 50, Estimate 2 True, Warp 2])"
  by code_simp

section \<open>The reference channel\<close>

text \<open>
  C4. Whenever \<open>align_images\<close> returns on a list of three images, the list it returns
  has three images and its first image is the first input image, sample for sample;
  the first image of the input list is still that image too.
\<close>

theorem reference_unchanged:
  assumes "valid_input s l" and "images_at s l = [R, G, B]"
    and "align_images cv l s = (Inr out, s', t)"
  shows "length (images_at s' out) = 3 \<and> images_at s' out ! 0 = R \<and> images_at s' l ! 0 = R"
proof -
  from assms(1,2) obtain a0 a1 a2 where *: "l < length (lists s)" "lists s ! l = [a0, a1, a2]"
    "a0 < length (arrays s)" "a1 < length (arrays s)" "a2 < length (arrays s)"
    "arrays s ! a0 = R" "arrays s ! a1 = G" "arrays s ! a2 = B"
    by (rule triple_addrs)
  show ?thesis
    using assms(3) *(1,3,6)
    unfolding align_images_triple [OF *(1-5), of cv]
    by (auto simp: Let_def images_at_def nth_append *(2)
        split: prod.splits sum.splits option.splits)
qed

theorem reference_unchanged_witness:
  "valid_input store_G_blank 0 \<and> images_at store_G_blank 0 = [img_R, img_G, img_B]
   \<and> fst (align_images (demo_cv 50 True) 0 store_G_blank) = Inr 1
   \<and> images_at (fst (snd (align_images (demo_cv 50 True) 0 store_G_blank))) 1 ! 0 = img_R"
  using reference_unchanged [OF valid_G_blank images_G_blank run_G_blank]
    valid_G_blank images_G_blank
  unfolding run_G_blank by simp

section \<open>The floor of 50 matches\<close>

text \<open>
  C3. Whenever the matcher, called for channel \<open>i\<close>, returns \<open>n\<close> matches with
  \<open>n < 50\<close>, \<open>align_images\<close> raises AlignmentError with the message
  "Insufficient matches (n/50)", which carries the count and the floor, and neither the
  estimator nor the resampler is called for that channel. The count is the length of
  what the matcher returned for the descriptors of the reference and of channel \<open>i\<close>.
\<close>

theorem insufficient_matches:
  assumes v: "valid_input s l" and im: "images_at s l = [R, G, B]"
    and run: "align_images cv l s = (r, s', t)"
    and m: "Match i n \<in> set t" and n: "n < 50"
  shows "r = Inl (AlignmentError, ''Insufficient matches ('' @ str n @ ''/50)'')
    \<and> (\<forall>ok. Estimate i ok \<notin> set t) \<and> Warp i \<notin> set t
    \<and> (\<exists>d0 di. descriptors_of cv [R, G, B] ! 0 = Some d0 \<and> descriptors_of cv [R, G, B] ! i = Some di
          \<and> n = length (bf_match cv d0 di))"
proof -
  have n': "n < MIN_MATCHES" using n by (simp add: MIN_MATCHES_def)
  have msg: "insufficient_msg n = ''Insufficient matches ('' @ str n @ ''/50)''"
    by (simp add: insufficient_msg_def MIN_MATCHES_def str_small)
  from v im run show ?thesis
  proof (cases rule: triple_run_cases)
    case (fail1 e t1)
    from m fail1(3) have "Match i n \<in> set t1" by simp
    from estimate_channel_few [OF fail1(1) this n'] estimate_channel_Match [OF fail1(1) this]
    show ?thesis using fail1(2,3) msg by auto
  next
    case (fail2 o1 t1 e t2)
    have no1: "Match i n \<notin> set t1"
      using estimate_channel_Inr [OF fail2(1)] n' by auto
    with m fail2(4) have in2: "Match i n \<in> set t2" by (auto split: if_splits)
    from estimate_channel_Match [OF fail2(2) in2] have i: "i = 2" by simp
    have ch1: "\<forall>c\<in>set t1. channel_of c = 1"
      using estimate_channel_channel [OF fail2(1)] by blast
    have "\<forall>ok. Estimate i ok \<notin> set t1" "Warp i \<notin> set t1"
      using ch1 i by fastforce+
    with estimate_channel_few [OF fail2(2) in2 n'] estimate_channel_Match [OF fail2(2) in2]
    show ?thesis using fail2(3,4) msg i by (auto split: if_splits)
  next
    case (ok o1 t1 o2 t2)
    have "Match i n \<notin> set t1" "Match i n \<notin> set t2"
      using estimate_channel_Inr [OF ok(1)] estimate_channel_Inr [OF ok(2)] n' by auto
    with m ok(4) show ?thesis by (auto split: if_splits)
  qed
qed


theorem insufficient_matches_witness:
  "Match 1 10 \<in> set (snd (snd (align_images (demo_cv 10 True) 1 store_textured)))
   \<and> (10::nat) < 50
   \<and> fst (align_images (demo_cv 10 True) 1 store_textured) =
       Inl (AlignmentError, ''Insufficient matches (10/50)'')"
proof -
  have m: "Match 1 10 \<in> set [Match 1 10]" by simp
  have n: "(10::nat) < 50" by simp
  show ?thesis
    using insufficient_matches [OF valid_textured images_textured run_few m n]
    unfolding run_few by simp
qed

section \<open>A fit that fails\<close>

text \<open>
  C6. Whenever the estimator, called for channel \<open>i\<close> (so on at least 50 matches),
  returns no matrix, \<open>align_images\<close> raises AlignmentError with the message
  "Failed to estimate transformation for channel i", and the resampler is not called
  for that channel. The estimator was given the points of the matches of channel \<open>i\<close>.
\<close>

theorem estimation_failed:
  assumes v: "valid_input s l" and im: "images_at s l = [R, G, B]"
    and run: "align_images cv l s = (r, s', t)"
    and m: "Estimate i False \<in> set t"
  shows "r = Inl (AlignmentError, ''Failed to estimate transformation for channel '' @ str i)
    \<and> (i = 1 \<or> i = 2) \<and> Warp i \<notin> set t \<and> (\<exists>n. 50 \<le> n \<and> Match i n \<in> set t)
    \<and> (\<exists>d0 di src dst. descriptors_of cv [R, G, B] ! 0 = Some d0
          \<and> descriptors_of cv [R, G, B] ! i = Some di
          \<and> points_of (float32 cv) (keypoints_of cv [R, G, B] ! 0) (map queryIdx (bf_match cv d0 di)) = Inr src
          \<and> points_of (float32 cv) (keypoints_of cv [R, G, B] ! i) (map trainIdx (bf_match cv d0 di)) = Inr dst
          \<and> estimateAffinePartial2D cv dst src = None)"
proof -
  from v im run show ?thesis
  proof (cases rule: triple_run_cases)
    case (fail1 e t1)
    from m fail1(3) have in1: "Estimate i False \<in> set t1" by simp
    from estimate_channel_None [OF fail1(1) in1] estimate_channel_Estimate [OF fail1(1) in1]
    show ?thesis using fail1(2,3) by (auto simp: failed_msg_def MIN_MATCHES_def)
  next
    case (fail2 o1 t1 e t2)
    have no1: "Estimate i False \<notin> set t1"
      using estimate_channel_Inr [OF fail2(1)] by auto
    with m fail2(4) have in2: "Estimate i False \<in> set t2" by (auto split: if_splits)
    from estimate_channel_Estimate [OF fail2(2) in2] have i: "i = 2" by simp
    have ch1: "\<forall>c\<in>set t1. channel_of c = 1"
      using estimate_channel_channel [OF fail2(1)] by blast
    have "Warp i \<notin> set t1"
      using ch1 i by fastforce
    with estimate_channel_None [OF fail2(2) in2] estimate_channel_Estimate [OF fail2(2) in2]
    show ?thesis using fail2(3,4) i by (auto simp: failed_msg_def MIN_MATCHES_def split: if_splits)
  next
    case (ok o1 t1 o2 t2)
    have "Estimate i False \<notin> set t1" "Estimate i False \<notin> set t2"
      using estimate_channel_Inr [OF ok(1)] estimate_channel_Inr [OF ok(2)] by auto
    with m ok(4) show ?thesis by (auto split: if_splits)
  qed
qed

theorem estimation_failed_witness:
  "Estimate 1 False \<in> set (snd (snd (align_images (demo_cv 60 False) 1 store_textured)))
   \<and> fst (align_images (demo_cv 60 False) 1 store_textured) =
       Inl (AlignmentError, ''Failed to estimate transformation for channel 1'')"
proof -
  have m: "Estimate 1 False \<in> set [Match 1 60, Estimate 1 False]" by simp
  show ?thesis
    using estimation_failed [OF valid_textured images_textured run_no_fit m]
    unfolding run_no_fit by simp
qed

section \<open>A channel is resampled or skipped\<close>

text \<open>
  C1, as amended. Whenever \<open>align_images\<close> returns on three images, a channel
  \<open>i\<close> (1 or 2) for which the reference and the channel itself both have descriptors
  has been replaced by the resampling of its original under the matrix the estimator
  returned, at the reference's width and height, so that such a channel is never left
  unaligned in a returned result; a channel is a copy of its original, with no call of
  the resampler, exactly when the reference or the channel has no descriptors.
\<close>

theorem aligned_or_skipped:
  assumes v: "valid_input s l" and im: "images_at s l = [R, G, B]"
    and run: "align_images cv l s = (Inr out, s', t)"
    and i: "i = 1 \<or> i = 2"
  shows "(described (descriptors_of cv [R, G, B] ! 0) (descriptors_of cv [R, G, B] ! i) \<longrightarrow>
            Warp i \<in> set t \<and>
            (\<exists>M. fst (estimate_channel cv (keypoints_of cv [R, G, B]) (descriptors_of cv [R, G, B]) i)
                   = Inr (Some M)
               \<and> images_at s' out ! i = warpAffine cv ([R, G, B] ! i) M (shape1 R, shape0 R)))
       \<and> (\<not> described (descriptors_of cv [R, G, B] ! 0) (descriptors_of cv [R, G, B] ! i) \<longrightarrow>
            Warp i \<notin> set t \<and> images_at s' out ! i = [R, G, B] ! i)"
proof -
  let ?kps = "keypoints_of cv [R, G, B]" and ?des = "descriptors_of cv [R, G, B]"
  from v im run show ?thesis
  proof (cases rule: triple_run_cases)
    case (fail1 e t1)
    then show ?thesis by simp
  next
    case (fail2 o1 t1 e t2)
    then show ?thesis by simp
  next
    case (ok o1 t1 o2 t2)
    have s1: "(o1 = None) = (\<not> described (?des ! 0) (?des ! 1))"
      using estimate_channel_skip(1) [of ?des 1 cv ?kps] ok(1) by (simp add: descriptors_of_length)
    have s2: "(o2 = None) = (\<not> described (?des ! 0) (?des ! 2))"
      using estimate_channel_skip(1) [of ?des 2 cv ?kps] ok(2) by (simp add: descriptors_of_length)
    have c1: "\<forall>c\<in>set t1. channel_of c = 1"
      using estimate_channel_channel [OF ok(1)] by blast
    have c2: "\<forall>c\<in>set t2. channel_of c = 2"
      using estimate_channel_channel [OF ok(2)] by blast
    have w1: "Warp 1 \<notin> set t1" "Warp 2 \<notin> set t1" "Warp 1 \<notin> set t2" "Warp 2 \<notin> set t2"
      using estimate_channel_Inr [OF ok(1)] estimate_channel_Inr [OF ok(2)] by auto
    from i show ?thesis
    proof
      assume "i = 1"
      with ok s1 w1 show ?thesis by (cases o1) (auto simp del: One_nat_def)
    next
      assume "i = 2"
      with ok s2 w1 show ?thesis by (cases o2) auto
    qed
  qed
qed

theorem aligned_or_skipped_witness:
  "((2::nat) = 1 \<or> (2::nat) = 2)
   \<and> described (descriptors_of (demo_cv 50 True) [img_R, img_G, img_B] ! 0)
       (descriptors_of (demo_cv 50 True) [img_R, img_G, img_B] ! 2)
   \<and> Warp 2 \<in> set (snd (snd (align_images (demo_cv 50 True) 0 store_G_blank)))"
proof -
  have i: "(2::nat) = 1 \<or> (2::nat) = 2" by simp
  from aligned_or_skipped [OF valid_G_blank images_G_blank run_G_blank i] described_G_blank(2)
  show ?thesis unfolding run_G_blank by simp
qed

text \<open>
  The claim as the specification words it fails: with a blank green image the call
  returns, the blue channel resampled and the green one a copy of its original.
\<close>

theorem partial_alignment_counterexample:
  "fst (align_images (demo_cv 50 True) 0 store_G_blank) = Inr 1
   \<and> snd (snd (align_images (demo_cv 50 True) 0 store_G_blank)) =
       [Match 2 50, Estimate 2 True, Warp 2]
   \<and> images_at (fst (snd (align_images (demo_cv 50 True) 0 store_G_blank))) 1 =
       [img_R, img_G, img_black]"
  unfolding run_G_blank by (simp add: images_at_def img_black_def)

section \<open>Width and height of the result\<close>

text \<open>
  C2, as amended. Whenever \<open>align_images\<close> returns on three images, and the resampler
  returns an image of the reference's width and height when asked for that size, the
  first output image and every channel for which the reference and the channel both
  have descriptors have the reference's width and height; a channel skipped for want of
  descriptors is its original image, with the original's own width and height.
\<close>

theorem output_dimensions:
  assumes v: "valid_input s l" and im: "images_at s l = [R, G, B]"
    and run: "align_images cv l s = (Inr out, s', t)"
    and warp: "\<forall>X M. shape0 (warpAffine cv X M (shape1 R, shape0 R)) = shape0 R
                   \<and> shape1 (warpAffine cv X M (shape1 R, shape0 R)) = shape1 R"
    and i: "i < 3"
  shows "(i = 0 \<or> described (descriptors_of cv [R, G, B] ! 0) (descriptors_of cv [R, G, B] ! i) \<longrightarrow>
            shape0 (images_at s' out ! i) = shape0 R \<and> shape1 (images_at s' out ! i) = shape1 R)
       \<and> (i \<noteq> 0 \<and> \<not> described (descriptors_of cv [R, G, B] ! 0) (descriptors_of cv [R, G, B] ! i) \<longrightarrow>
            images_at s' out ! i = [R, G, B] ! i)"
proof -
  let ?kps = "keypoints_of cv [R, G, B]" and ?des = "descriptors_of cv [R, G, B]"
  from v im run show ?thesis
  proof (cases rule: triple_run_cases)
    case (fail1 e t1)
    then show ?thesis by simp
  next
    case (fail2 o1 t1 e t2)
    then show ?thesis by simp
  next
    case (ok o1 t1 o2 t2)
    have s1: "(o1 = None) = (\<not> described (?des ! 0) (?des ! 1))"
      using estimate_channel_skip(1) [of ?des 1 cv ?kps] ok(1) by (simp add: descriptors_of_length)
    have s2: "(o2 = None) = (\<not> described (?des ! 0) (?des ! 2))"
      using estimate_channel_skip(1) [of ?des 2 cv ?kps] ok(2) by (simp add: descriptors_of_length)
    from i consider "i = 0" | "i = 1" | "i = 2" by linarith
    then show ?thesis
    proof cases
      case 1
      with ok show ?thesis by simp
    next
      case 2
      with ok s1 warp show ?thesis by (cases o1) (auto simp del: One_nat_def)
    next
      case 3
      with ok s2 warp show ?thesis by (cases o2) auto
    qed
  qed
qed

theorem output_dimensions_witness:
  "(\<forall>X M. shape0 (warpAffine (demo_cv 50 True) X M (shape1 img_R, shape0 img_R)) = shape0 img_R
        \<and> shape1 (warpAffine (demo_cv 50 True) X M (shape1 img_R, shape0 img_R)) = shape1 img_R)
   \<and> (2::nat) < 3
   \<and> shape0 (images_at (fst (snd (align_images (demo_cv 50 True) 0 store_G_blank))) 1 ! 2) = shape0 img_R
   \<and> shape1 (images_at (fst (snd (align_images (demo_cv 50 True) 0 store_G_blank))) 1 ! 2) = shape1 img_R"
proof -
  have w: "\<forall>X M. shape0 (warpAffine (demo_cv 50 True) X M (shape1 img_R, shape0 img_R)) = shape0 img_R
        \<and> shape1 (warpAffine (demo_cv 50 True) X M (shape1 img_R, shape0 img_R)) = shape1 img_R"
    by (simp add: demo_cv_def)
  have i: "(2::nat) < 3" by simp
  from output_dimensions [OF valid_G_blank images_G_blank run_G_blank w i] described_G_blank(2) w
  show ?thesis unfolding run_G_blank by simp
qed

text \<open>
  The claim as the specification words it fails: the green input is 1 by 2, the
  reference 2 by 3, and the green output is still 1 by 2.
\<close>

theorem output_dimensions_counterexample:
  "fst (align_images (demo_cv 50 True) 0 store_G_blank) = Inr 1
   \<and> shape0 (images_at store_G_blank 0 ! 0) = 2 \<and> shape1 (images_at store_G_blank 0 ! 0) = 3
   \<and> shape0 (images_at (fst (snd (align_images (demo_cv 50 True) 0 store_G_blank))) 1 ! 1) = 1
   \<and> shape1 (images_at (fst (snd (align_images (demo_cv 50 True) 0 store_G_blank))) 1 ! 1) = 2"
  unfolding run_G_blank by (simp add: images_at_def store_G_blank_def img_R_def img_G_def)

section \<open>A channel without descriptors\<close>

text \<open>
  C5. On three images, when the detector yields no descriptors (none at all, or an
  empty array) for the reference or for channel \<open>i\<close> (1 or 2), no library call is made
  for channel \<open>i\<close>; if \<open>align_images\<close> returns, output \<open>i\<close> is the original image
  \<open>i\<close>; and if it raises, the exception comes from the other channel, for which a call
  was made.
\<close>

theorem skipped_without_descriptors:
  assumes v: "valid_input s l" and im: "images_at s l = [R, G, B]"
    and run: "align_images cv l s = (r, s', t)"
    and i: "i = 1 \<or> i = 2"
    and nd: "\<not> described (descriptors_of cv [R, G, B] ! 0) (descriptors_of cv [R, G, B] ! i)"
  shows "(\<forall>c\<in>set t. channel_of c \<noteq> i)
       \<and> (\<forall>out. r = Inr out \<longrightarrow> images_at s' out ! i = [R, G, B] ! i)
       \<and> (\<forall>e. r = Inl e \<longrightarrow> (\<exists>c\<in>set t. channel_of c = 3 - i))"
proof -
  let ?kps = "keypoints_of cv [R, G, B]" and ?des = "descriptors_of cv [R, G, B]"
  have skip: "estimate_channel cv ?kps ?des i = (Inr None, [])"
    using estimate_channel_skip(2) [of ?des i cv ?kps] nd i by (auto simp: descriptors_of_length)
  from v im run show ?thesis
  proof (cases rule: triple_run_cases)
    case (fail1 e t1)
    with skip i have i2: "i = 2" by auto
    have c1: "\<forall>c\<in>set t1. channel_of c = 1"
      using estimate_channel_channel [OF fail1(1)] by blast
    have "t1 \<noteq> []"
      using estimate_channel_Inl [OF fail1(1)] by (simp add: descriptors_of_length)
    then obtain c where "c \<in> set t1" by (cases t1) auto
    with c1 fail1(2,3) i2 show ?thesis by auto
  next
    case (fail2 o1 t1 e t2)
    with skip i have i1: "i = 1" by auto
    with skip fail2(1) have t1: "t1 = []" "o1 = None" by simp_all
    have c2: "\<forall>c\<in>set t2. channel_of c = 2"
      using estimate_channel_channel [OF fail2(2)] by blast
    have "t2 \<noteq> []"
      using estimate_channel_Inl [OF fail2(2)] by (simp add: descriptors_of_length)
    then obtain c where "c \<in> set t2" by (cases t2) auto
    with c2 fail2(3,4) i1 t1 show ?thesis by auto
  next
    case (ok o1 t1 o2 t2)
    have c1: "\<forall>c\<in>set t1. channel_of c = 1"
      using estimate_channel_channel [OF ok(1)] by blast
    have c2: "\<forall>c\<in>set t2. channel_of c = 2"
      using estimate_channel_channel [OF ok(2)] by blast
    from i show ?thesis
    proof
      assume i1: "i = 1"
      with skip ok(1) have "t1 = []" "o1 = None" by simp_all
      with ok c2 i1 show ?thesis by (auto simp del: One_nat_def)
    next
      assume i2: "i = 2"
      with skip ok(2) have "t2 = []" "o2 = None" by simp_all
      with ok c1 i2 show ?thesis by auto
    qed
  qed
qed

theorem skipped_without_descriptors_witness:
  "((1::nat) = 1 \<or> (1::nat) = 2)
   \<and> \<not> described (descriptors_of (demo_cv 50 True) [img_R, img_G, img_B] ! 0)
         (descriptors_of (demo_cv 50 True) [img_R, img_G, img_B] ! 1)
   \<and> fst (align_images (demo_cv 50 True) 0 store_G_blank) = Inr 1
   \<and> images_at (fst (snd (align_images (demo_cv 50 True) 0 store_G_blank))) 1 ! 1 = img_G"
proof -
  have i: "(1::nat) = 1 \<or> (1::nat) = 2" by simp
  from skipped_without_descriptors [OF valid_G_blank images_G_blank run_G_blank i described_G_blank(1)]
    described_G_blank(1)
  show ?thesis unfolding run_G_blank by (simp add: images_at_def)
qed

section \<open>The two kinds of failure\<close>

text \<open>
  C7, as amended. Both kinds of failure are raised as the one class AlignmentError.
  On three images every AlignmentError that \<open>align_images\<close> raises has either the
  message "Insufficient matches (n/50)", \<open>n\<close> being the number of matches, under 50,
  that the matcher returned for channel 1 or 2, or the message "Failed to estimate
  transformation for channel i", \<open>i\<close> being the channel, 1 or 2, for which the estimator
  returned no matrix; and no message of the first form is one of the second form. The
  kinds differ in the text of the message only.
\<close>

theorem alignment_error_messages:
  assumes v: "valid_input s l" and im: "images_at s l = [R, G, B]"
    and run: "align_images cv l s = (Inl (AlignmentError, msg), s', t)"
  shows "((\<exists>i n. (i = 1 \<or> i = 2) \<and> n < 50 \<and> Match i n \<in> set t
            \<and> msg = ''Insufficient matches ('' @ str n @ ''/50)'')
       \<or> (\<exists>i. (i = 1 \<or> i = 2) \<and> Estimate i False \<in> set t
            \<and> msg = ''Failed to estimate transformation for channel '' @ str i))
     \<and> (\<forall>n i. ''Insufficient matches ('' @ str n @ ''/50)''
             \<noteq> ''Failed to estimate transformation for channel '' @ str i)"
    (is "?kinds \<and> ?differ")
proof -
  from v im run have kinds: "?kinds"
  proof (cases rule: triple_run_cases)
    case (fail1 e t1)
    from fail1(1,2) have e1: "estimate_channel cv (keypoints_of cv [R, G, B])
        (descriptors_of cv [R, G, B]) 1 = (Inl (AlignmentError, msg), t1)" by simp
    show ?thesis
      by (rule error_messages_channel [OF e1 descriptors_of_length]) (simp_all add: fail1(3))
  next
    case (fail2 o1 t1 e t2)
    from fail2(2,3) have e2: "estimate_channel cv (keypoints_of cv [R, G, B])
        (descriptors_of cv [R, G, B]) 2 = (Inl (AlignmentError, msg), t2)" by simp
    show ?thesis
      by (rule error_messages_channel [OF e2 descriptors_of_length]) (auto simp: fail2(4))
  next
    case (ok o1 t1 o2 t2)
    then show ?thesis by simp
  qed
  have differ: "?differ" by simp
  from kinds differ show ?thesis by (rule conjI)
qed

theorem alignment_error_messages_witness:
  "align_images (demo_cv 10 True) 1 store_textured =
     (Inl (AlignmentError, ''Insufficient matches (10/50)''),
      \<lparr>arrays = [img_R, img_B, img_G, img_B, img_R, img_B, img_B],
       lists = [[2], [0, 1, 3], [4, 5, 6]]\<rparr>,
      [Match 1 10])
   \<and> (\<exists>i n. (i = 1 \<or> i = 2) \<and> n < 50 \<and> Match i n \<in> set [Match 1 10]
          \<and> ''Insufficient matches (10/50)'' = ''Insufficient matches ('' @ str n @ ''/50)'')"
  using alignment_error_messages [OF valid_textured images_textured run_few] run_few
  by simp

text \<open>
  The claim as the specification words it fails: a run with 10 matches and a run whose
  estimator returns no matrix raise exceptions of the same class.
\<close>

theorem error_class_counterexample:
  "fst (align_images (demo_cv 10 True) 1 store_textured) =
     Inl (AlignmentError, ''Insufficient matches (10/50)'')
   \<and> fst (align_images (demo_cv 60 False) 1 store_textured) =
     Inl (AlignmentError, ''Failed to estimate transformation for channel 1'')
   \<and> raised_class (fst (align_images (demo_cv 10 True) 1 store_textured)) =
     raised_class (fst (align_images (demo_cv 60 False) 1 store_textured))"
  unfolding run_few run_no_fit by (simp add: raised_class_def)

section \<open>Mutual nearest descriptors\<close>

text \<open>
  C8. A match is among those the matcher returns exactly when its train descriptor is
  the best match of its query descriptor among the train descriptors and its query
  descriptor is the best match of that train descriptor among the query descriptors,
  under the Hamming distance, which the match records; no threshold takes part.
\<close>

theorem mutual_best_match:
  "m \<in> set (cross_check_match query train) \<longleftrightarrow>
     best_match (query ! queryIdx m) train (trainIdx m)
     \<and> best_match (train ! trainIdx m) query (queryIdx m)
     \<and> distance m = hamming (query ! queryIdx m) (train ! trainIdx m)"
proof
  assume "m \<in> set (cross_check_match query train)"
  then obtain i where i: "i < length query" and
    m: "m \<in> set (case nearest (query ! i) train of
                    None \<Rightarrow> []
                  | Some j \<Rightarrow>
                      if nearest (train ! j) query = Some i
                      then [\<lparr>queryIdx = i, trainIdx = j,
                             distance = hamming (query ! i) (train ! j)\<rparr>]
                      else [])"
    by (auto simp: cross_check_match_def)
  from m obtain j where j: "nearest (query ! i) train = Some j"
    by (cases "nearest (query ! i) train") auto
  from m j have nback: "nearest (train ! j) query = Some i"
    by (auto split: if_splits)
  from m j nback have "m = \<lparr>queryIdx = i, trainIdx = j, distance = hamming (query ! i) (train ! j)\<rparr>"
    by simp
  with j nback show "best_match (query ! queryIdx m) train (trainIdx m)
     \<and> best_match (train ! trainIdx m) query (queryIdx m)
     \<and> distance m = hamming (query ! queryIdx m) (train ! trainIdx m)"
    by (simp add: nearest_iff)
next
  assume a: "best_match (query ! queryIdx m) train (trainIdx m)
     \<and> best_match (train ! trainIdx m) query (queryIdx m)
     \<and> distance m = hamming (query ! queryIdx m) (train ! trainIdx m)"
  let ?i = "queryIdx m" and ?j = "trainIdx m"
  from a have i: "?i < length query" by (simp add: best_match_def)
  from a have n1: "nearest (query ! ?i) train = Some ?j" and n2: "nearest (train ! ?j) query = Some ?i"
    by (simp_all add: nearest_iff)
  from a have "m = \<lparr>queryIdx = ?i, trainIdx = ?j, distance = hamming (query ! ?i) (train ! ?j)\<rparr>"
    by simp
  then have "m \<in> set (case nearest (query ! ?i) train of
                    None \<Rightarrow> []
                  | Some j \<Rightarrow>
                      if nearest (train ! j) query = Some ?i
                      then [\<lparr>queryIdx = ?i, trainIdx = j,
                             distance = hamming (query ! ?i) (train ! j)\<rparr>]
                      else [])"
    using n1 n2 by simp
  with i show "m \<in> set (cross_check_match query train)"
    unfolding cross_check_match_def set_concat set_map by (intro UnionI [OF imageI]) auto
qed

theorem mutual_best_match_witness:
  "\<lparr>queryIdx = 0, trainIdx = 0, distance = 0\<rparr> \<in> set (cross_check_match [[15], [14]] [[15]])
   \<and> best_match ([[15], [14]] ! 0) [[15]] 0
   \<and> best_match ([[15]] ! 0) [[15], [14]] 0
   \<and> \<lparr>queryIdx = 1, trainIdx = 0, distance = 1\<rparr> \<notin> set (cross_check_match [[15], [14]] [[15]])
   \<and> \<not> best_match ([[15]] ! 0) [[15], [14]] 1"
proof -
  have a: "\<lparr>queryIdx = 0, trainIdx = 0, distance = 0\<rparr> \<in> set (cross_check_match [[15], [14]] [[15]])"
    by code_simp
  have b: "\<not> best_match ([[15]] ! 0) [[15], [14]] 1"
    by code_simp
  from mutual_best_match [of "\<lparr>queryIdx = 0, trainIdx = 0, distance = 0\<rparr>" "[[15], [14]]" "[[15]]"]
    mutual_best_match [of "\<lparr>queryIdx = 1, trainIdx = 0, distance = 1\<rparr>" "[[15], [14]]" "[[15]]"]
    a b
  show ?thesis by simp
qed

section \<open>The same images give the same result\<close>

text \<open>
  C9. Two runs of \<open>align_images\<close>, with the same library functions, on lists that hold
  the same three images, wherever the lists and the arrays lie in the two stores, make
  the same library calls and either raise the same exception or both return, and then
  the images of the two results are the same.
\<close>

theorem same_images_same_result:
  assumes v1: "valid_input s1 l1" and im1: "images_at s1 l1 = [R, G, B]"
    and v2: "valid_input s2 l2" and im2: "images_at s2 l2 = [R, G, B]"
    and run1: "align_images cv l1 s1 = (r1, s1', t1)"
    and run2: "align_images cv l2 s2 = (r2, s2', t2)"
  shows "t1 = t2 \<and> (case r1 of Inl e \<Rightarrow> r2 = Inl e
           | Inr out1 \<Rightarrow> (\<exists>out2. r2 = Inr out2 \<and> images_at s2' out2 = images_at s1' out1))"
proof -
  from v1 im1 run1 obtain a1 ta1 a2 ta2 where
    ea1: "estimate_channel cv (keypoints_of cv [R, G, B]) (descriptors_of cv [R, G, B]) 1 = (a1, ta1)" and
    ea2: "estimate_channel cv (keypoints_of cv [R, G, B]) (descriptors_of cv [R, G, B]) 2 = (a2, ta2)" and
    rta: "case a1 of Inl e \<Rightarrow> r1 = Inl e \<and> t1 = ta1
     | Inr o1 \<Rightarrow> (case a2 of Inl e \<Rightarrow> r1 = Inl e \<and> t1 = ta1 @ (if o1 = None then [] else [Warp 1]) @ ta2
         | Inr o2 \<Rightarrow> r1 = Inr (length (lists s1)) \<and>
             t1 = ta1 @ (if o1 = None then [] else [Warp 1]) @ ta2 @ (if o2 = None then [] else [Warp 2])
             \<and> images_at s1' (length (lists s1)) =
                 [R, case o1 of None \<Rightarrow> G | Some M \<Rightarrow> warpAffine cv G M (shape1 R, shape0 R),
                     case o2 of None \<Rightarrow> B | Some M \<Rightarrow> warpAffine cv B M (shape1 R, shape0 R)])"
    by (rule triple_run)
  from v2 im2 run2 obtain b1 tb1 b2 tb2 where
    eb1: "estimate_channel cv (keypoints_of cv [R, G, B]) (descriptors_of cv [R, G, B]) 1 = (b1, tb1)" and
    eb2: "estimate_channel cv (keypoints_of cv [R, G, B]) (descriptors_of cv [R, G, B]) 2 = (b2, tb2)" and
    rtb: "case b1 of Inl e \<Rightarrow> r2 = Inl e \<and> t2 = tb1
     | Inr o1 \<Rightarrow> (case b2 of Inl e \<Rightarrow> r2 = Inl e \<and> t2 = tb1 @ (if o1 = None then [] else [Warp 1]) @ tb2
         | Inr o2 \<Rightarrow> r2 = Inr (length (lists s2)) \<and>
             t2 = tb1 @ (if o1 = None then [] else [Warp 1]) @ tb2 @ (if o2 = None then [] else [Warp 2])
             \<and> images_at s2' (length (lists s2)) =
                 [R, case o1 of None \<Rightarrow> G | Some M \<Rightarrow> warpAffine cv G M (shape1 R, shape0 R),
                     case o2 of None \<Rightarrow> B | Some M \<Rightarrow> warpAffine cv B M (shape1 R, shape0 R)])"
    by (rule triple_run)
  from ea1 eb1 have eq1: "b1 = a1" "tb1 = ta1" by simp_all
  from ea2 eb2 have eq2: "b2 = a2" "tb2 = ta2" by simp_all
  show ?thesis
  proof (cases a1)
    case (Inl e)
    with rta rtb eq1 show ?thesis by simp
  next
    case (Inr o1)
    note a1 = this
    show ?thesis
    proof (cases a2)
      case (Inl e)
      with rta rtb eq1 eq2 a1 show ?thesis by simp
    next
      case (Inr o2)
      with rta rtb eq1 eq2 a1 show ?thesis by simp
    qed
  qed
qed

theorem same_images_same_result_witness:
  "images_at store_textured 1 = images_at store_aliased 0
   \<and> images_at (fst (snd (align_images (demo_cv 50 True) 0 store_aliased))) 1 =
     images_at (fst (snd (align_images (demo_cv 50 True) 1 store_textured))) 2"
  using same_images_same_result [OF valid_textured images_textured images_aliased run_textured run_aliased]
  unfolding run_textured run_aliased images_textured images_aliased by simp

section \<open>The input is left as it was\<close>

text \<open>
  C10. A call of \<open>align_images\<close> on three images, whether it returns or raises, leaves
  every array and every list that the store held before as it was, so the input list
  still holds the same three images; and the list it returns is a new list of three
  different new arrays, none of them an array of the store before the call.
\<close>

theorem inputs_untouched:
  assumes v: "valid_input s l" and im: "images_at s l = [R, G, B]"
    and run: "align_images cv l s = (r, s', t)"
  shows "take (length (arrays s)) (arrays s') = arrays s
       \<and> take (length (lists s)) (lists s') = lists s
       \<and> lists s' ! l = lists s ! l \<and> images_at s' l = [R, G, B]
       \<and> (\<forall>out. r = Inr out \<longrightarrow>
            out = length (lists s) \<and> out < length (lists s') \<and> distinct (lists s' ! out)
            \<and> (\<forall>a\<in>set (lists s' ! out). length (arrays s) \<le> a \<and> a < length (arrays s')))"
proof -
  from v im obtain a0 a1 a2 where *: "l < length (lists s)" "lists s ! l = [a0, a1, a2]"
    "a0 < length (arrays s)" "a1 < length (arrays s)" "a2 < length (arrays s)"
    "arrays s ! a0 = R" "arrays s ! a1 = G" "arrays s ! a2 = B"
    by (rule triple_addrs)
  show ?thesis
    using run *(1,3-8)
    unfolding align_images_triple [OF *(1-5), of cv]
    by (auto simp: Let_def images_at_def nth_append *(2)
        split: prod.splits sum.splits option.splits)
qed

theorem inputs_untouched_witness:
  "valid_input store_G_blank 0
   \<and> take 3 (arrays (fst (snd (align_images (demo_cv 50 True) 0 store_G_blank)))) =
       [img_R, img_G, img_B]
   \<and> lists (fst (snd (align_images (demo_cv 50 True) 0 store_G_blank))) ! 1 = [3, 4, 6]"
  using inputs_untouched [OF valid_G_blank images_G_blank run_G_blank] valid_G_blank
  unfolding run_G_blank by (simp add: store_G_blank_def)

end
